theory Spec2Isabelle
  imports Complex_Main "HOL-Library.Sublist" "HOL-Library.Multiset"
begin

section \<open>Offline QRS detector: data model\<close>

text \<open>
  The embedding follows \<^verbatim>\<open>QRSDetectorOffline.py\<close>. NumPy arrays of floats are lists of
  \<^typ>\<open>real\<close>: arithmetic and comparisons are exact, so rounding, infinities and NaN are
  outside the model. Sample indices are Python integers (\<^typ>\<open>int\<close>) in the classifier,
  where they are subtracted, and positions (\<^typ>\<open>nat\<close>) in the peak finder, which
  produces them with \<^verbatim>\<open>argwhere\<close>. Every exception the code can raise on the modelled
  paths is a value of \<^typ>\<open>'e + 'a\<close> with the error on the left.
\<close>

datatype error = IndexError | ValueError | ZeroDivisionError

text \<open>The configuration attributes set at the top of \<^verbatim>\<open>__init__\<close>.\<close>

record config =
  signal_frequency :: int
  filter_lowcut :: real
  filter_highcut :: real
  filter_order :: int
  integration_window :: int
  findpeaks_limit :: real
  findpeaks_spacing :: nat
  detection_window :: int
  refractory_period :: int
  signal_peak_filtering_factor :: real
  noise_peak_filtering_factor :: real
  signal_noise_diff_weight :: real

definition default_config :: config where
  "default_config = \<lparr>
     signal_frequency = 250,
     filter_lowcut = 0,
     filter_highcut = 15,
     filter_order = 1,
     integration_window = 15,
     findpeaks_limit = 35 / 100,
     findpeaks_spacing = 50,
     detection_window = 40,
     refractory_period = 120,
     signal_peak_filtering_factor = 125 / 1000,
     noise_peak_filtering_factor = 125 / 1000,
     signal_noise_diff_weight = 25 / 100 \<rparr>"

text \<open>
  The attributes that \<^verbatim>\<open>detect_qrs\<close> reads and writes. \<^verbatim>\<open>np.append\<close> adds at the end,
  so the newest index is the last element.
\<close>

record classifier =
  qrs_peaks_indices :: "int list"
  noise_peaks_indices :: "int list"
  signal_peak_value :: real
  noise_peak_value :: real
  threshold_value :: real

text \<open>The values \<^verbatim>\<open>__init__\<close> gives these attributes (lines 64 to 69).\<close>

definition init_classifier :: classifier where
  "init_classifier = \<lparr>
     qrs_peaks_indices = [],
     noise_peaks_indices = [],
     signal_peak_value = 0,
     noise_peak_value = 0,
     threshold_value = 0 \<rparr>"

section \<open>The classifier: \<^verbatim>\<open>detect_qrs\<close>\<close>

text \<open>
  Lines 131 to 134: \<^verbatim>\<open>qrs_peaks_indices[-1]\<close>, and 0 when that raises IndexError,
  which it does exactly on the empty array.
\<close>

definition last_qrs_index :: "classifier \<Rightarrow> int" where
  "last_qrs_index self =
     (case qrs_peaks_indices self of [] \<Rightarrow> 0 | _ # _ \<Rightarrow> last (qrs_peaks_indices self))"

text \<open>The guard of line 137.\<close>

definition eligible :: "config \<Rightarrow> classifier \<Rightarrow> int \<Rightarrow> bool" where
  "eligible cfg self detected_peak_index \<longleftrightarrow>
     detected_peak_index - last_qrs_index self > refractory_period cfg
     \<or> qrs_peaks_indices self = []"

text \<open>Lines 140 to 151: the branch on the threshold, with the level it updates.\<close>

definition classify_peak :: "config \<Rightarrow> classifier \<Rightarrow> int \<Rightarrow> real \<Rightarrow> classifier" where
  "classify_peak cfg self detected_peak_index detected_peaks_value =
     (if detected_peaks_value > threshold_value self
      then self\<lparr>
        qrs_peaks_indices := qrs_peaks_indices self @ [detected_peak_index],
        signal_peak_value :=
          signal_peak_filtering_factor cfg * detected_peaks_value
          + (1 - signal_peak_filtering_factor cfg) * signal_peak_value self\<rparr>
      else self\<lparr>
        noise_peaks_indices := noise_peaks_indices self @ [detected_peak_index],
        noise_peak_value :=
          noise_peak_filtering_factor cfg * detected_peaks_value
          + (1 - noise_peak_filtering_factor cfg) * noise_peak_value self\<rparr>)"

text \<open>Lines 154 and 155: the threshold from the two levels.\<close>

definition adjust_threshold :: "config \<Rightarrow> classifier \<Rightarrow> classifier" where
  "adjust_threshold cfg self =
     self\<lparr>threshold_value :=
       noise_peak_value self
       + signal_noise_diff_weight cfg * (signal_peak_value self - noise_peak_value self)\<rparr>"

text \<open>One iteration of the loop of line 129.\<close>

definition detect_qrs_step :: "config \<Rightarrow> classifier \<Rightarrow> int \<times> real \<Rightarrow> classifier" where
  "detect_qrs_step cfg self c =
     (if eligible cfg self (fst c)
      then adjust_threshold cfg (classify_peak cfg self (fst c) (snd c))
      else self)"

text \<open>
  The loop runs over \<^verbatim>\<open>zip(detected_peaks_indices, detected_peaks_values)\<close>, which stops
  at the end of the shorter array.
\<close>

definition detect_qrs :: "config \<Rightarrow> classifier \<Rightarrow> int list \<Rightarrow> real list \<Rightarrow> classifier" where
  "detect_qrs cfg self detected_peaks_indices detected_peaks_values =
     foldl (detect_qrs_step cfg) self (zip detected_peaks_indices detected_peaks_values)"

text \<open>
  The candidates that the guard of line 137 turns away during a run, in order: the
  run is replayed and an index is recorded where the guard is false. The code keeps
  no such list; it is here to state what happens to the candidates in neither output.
\<close>

fun skipped_indices :: "config \<Rightarrow> classifier \<Rightarrow> (int \<times> real) list \<Rightarrow> int list" where
  "skipped_indices cfg self [] = []"
| "skipped_indices cfg self (c # cs) =
     (if eligible cfg self (fst c) then [] else [fst c])
     @ skipped_indices cfg (detect_qrs_step cfg self c) cs"

section \<open>The peak finder: \<^verbatim>\<open>findpeaks\<close>\<close>

text \<open>The constant \<^verbatim>\<open>1.e-6\<close> of lines 189 and 190.\<close>

definition epsilon :: real where
  "epsilon = 1 / 1000000"

text \<open>
  Lines 188 to 191: an array of \<^verbatim>\<open>len + 2 * spacing\<close> cells whose first
  \<^verbatim>\<open>spacing\<close> cells hold \<^verbatim>\<open>data[0] - 1.e-6\<close>, whose last \<^verbatim>\<open>spacing\<close> cells hold
  \<^verbatim>\<open>data[-1] - 1.e-6\<close> and whose middle is \<^verbatim>\<open>data\<close>. With \<^verbatim>\<open>spacing = 0\<close> the slice
  \<^verbatim>\<open>x[-0:]\<close> is all of \<^verbatim>\<open>x\<close>, which line 191 then overwrites with \<^verbatim>\<open>data\<close>. The caller
  has checked that \<^verbatim>\<open>data\<close> is not empty.
\<close>

definition padded :: "real list \<Rightarrow> nat \<Rightarrow> real list" where
  "padded data spacing =
     replicate spacing (hd data - epsilon) @ data @ replicate spacing (last data - epsilon)"

text \<open>The slice \<^verbatim>\<open>x[start: start + len]\<close>.\<close>

definition slice :: "real list \<Rightarrow> nat \<Rightarrow> nat \<Rightarrow> real list" where
  "slice x start len = take len (drop start x)"

text \<open>The body of the loop of line 194, for one \<^verbatim>\<open>s\<close>.\<close>

definition peak_step :: "real list \<Rightarrow> nat \<Rightarrow> nat \<Rightarrow> bool list \<Rightarrow> nat \<Rightarrow> bool list" where
  "peak_step x spacing len peak_candidate s =
     (let h_b = slice x (spacing - s - 1) len;
          h_c = slice x spacing len;
          h_a = slice x (spacing + s + 1) len
      in map2 (\<and>) peak_candidate
           (map2 (\<and>) (map2 (\<lambda>c b. c > b) h_c h_b) (map2 (\<lambda>c a. c > a) h_c h_a)))"

text \<open>
  \<^verbatim>\<open>spacing\<close> is a number of samples; negative spacings are outside the model.
  An empty \<^verbatim>\<open>data\<close> raises IndexError at \<^verbatim>\<open>data[0]\<close> (line 189).
\<close>

definition findpeaks :: "real list \<Rightarrow> nat \<Rightarrow> real option \<Rightarrow> error + nat list" where
  "findpeaks data spacing limit =
     (if data = [] then Inl IndexError
      else
        let len = length data;
            x = padded data spacing;
            peak_candidate = foldl (peak_step x spacing len) (replicate len True) [0..<spacing];
            ind = filter (\<lambda>i. peak_candidate ! i) [0..<len]
        in Inr (case limit of
                  None \<Rightarrow> ind
                | Some l \<Rightarrow> filter (\<lambda>i. data ! i > l) ind))"

subsection \<open>The peak finder as the specification words it\<close>

text \<open>
  The value the specification compares \<^verbatim>\<open>data[i]\<close> with at position \<open>j\<close>, which may lie
  outside the sequence: the nearest boundary value minus the epsilon there, the
  sample itself inside.
\<close>

definition neighbour :: "real list \<Rightarrow> int \<Rightarrow> real" where
  "neighbour data j =
     (if j < 0 then data ! 0 - epsilon
      else if int (length data) \<le> j then data ! (length data - 1) - epsilon
      else data ! nat j)"

text \<open>
  A strict local maximum over \<^verbatim>\<open>spacing\<close> positions on each side: for every offset
  \<open>s\<close> from 0 to \<^verbatim>\<open>spacing - 1\<close>, strictly greater than the values \<open>s + 1\<close> positions
  before and after.
\<close>

definition strict_peak :: "real list \<Rightarrow> nat \<Rightarrow> nat \<Rightarrow> bool" where
  "strict_peak data spacing i \<longleftrightarrow>
     (\<forall>s \<in> {0..<spacing}.
        data ! i > neighbour data (int i - (int s + 1))
        \<and> data ! i > neighbour data (int i + (int s + 1)))"

text \<open>
  The specified result: the ascending list of the indices that are such maxima and,
  when a limit is given, whose value is greater than the limit.
\<close>

definition findpeaks_spec :: "real list \<Rightarrow> nat \<Rightarrow> real option \<Rightarrow> nat list" where
  "findpeaks_spec data spacing limit =
     filter (\<lambda>i. strict_peak data spacing i
                \<and> (case limit of None \<Rightarrow> True | Some l \<Rightarrow> data ! i > l))
       [0..<length data]"

section \<open>Signal conditioning: \<^verbatim>\<open>bandpass_filter\<close> and \<^verbatim>\<open>detect_peaks\<close>\<close>

text \<open>
  \<^verbatim>\<open>scipy.signal.butter\<close> and \<^verbatim>\<open>scipy.signal.lfilter\<close> are library functions outside the
  repository. They are parameters of the model: a design function from the order and
  the normalised band to the coefficients \<open>(b, a)\<close>, and a function applying the
  coefficients to the data; either may raise.
\<close>

type_synonym butter_design = "int \<Rightarrow> real \<times> real \<Rightarrow> error + real list \<times> real list"
type_synonym lfilter_apply = "real list \<Rightarrow> real list \<Rightarrow> real list \<Rightarrow> error + real list"

text \<open>
  Lines 170 to 175. The argument \<^verbatim>\<open>filter_order\<close> is named \<open>order\<close> here, the
  configuration attribute has the other name. \<^verbatim>\<open>lowcut\<close> and \<^verbatim>\<open>highcut\<close> are Python
  floats, so dividing by a Nyquist frequency of zero raises ZeroDivisionError. The body
  makes no check of its own on the cutoffs or on the order.
\<close>

definition bandpass_filter ::
  "butter_design \<Rightarrow> lfilter_apply \<Rightarrow> real list \<Rightarrow> real \<Rightarrow> real \<Rightarrow> int \<Rightarrow> int
     \<Rightarrow> error + real list" where
  "bandpass_filter butter lfilter data lowcut highcut signal_freq order =
     (let nyquist_freq = (1 / 2) * real_of_int signal_freq
      in if nyquist_freq = 0 then Inl ZeroDivisionError
         else
           let low = lowcut / nyquist_freq;
               high = highcut / nyquist_freq
           in case butter order (low, high) of
                Inl e \<Rightarrow> Inl e
              | Inr (b, a) \<Rightarrow> lfilter b a data)"

text \<open>
  \<^verbatim>\<open>np.ediff1d(ary)\<close> is \<^verbatim>\<open>ary[1:] - ary[:-1]\<close>, the differences of consecutive
  elements; it is empty for an array of fewer than two elements.
\<close>

definition ediff1d :: "real list \<Rightarrow> real list" where
  "ediff1d ary = map2 (\<lambda>later earlier. later - earlier) (tl ary) (butlast ary)"

text \<open>\<^verbatim>\<open>np.ones(n)\<close>: \<open>n\<close> ones; a negative dimension raises ValueError.\<close>

definition ones :: "int \<Rightarrow> error + real list" where
  "ones n = (if n < 0 then Inl ValueError else Inr (replicate (nat n) 1))"

text \<open>
  \<^verbatim>\<open>np.convolve(a, v)\<close> in its default mode \<^verbatim>\<open>full\<close>: element \<open>n\<close> of the result is the
  sum of \<open>a[m] * v[n - m]\<close> over the \<open>m\<close> for which both positions exist. It raises
  ValueError when either argument is empty.
\<close>

definition convolve :: "real list \<Rightarrow> real list \<Rightarrow> error + real list" where
  "convolve a v =
     (if a = [] \<or> v = [] then Inl ValueError
      else Inr (map (\<lambda>n. \<Sum>m \<leftarrow> [0..<length a].
                            if m \<le> n \<and> n - m < length v then a ! m * v ! (n - m) else 0)
                  [0..<length a + length v - 1]))"

text \<open>The attributes that \<^verbatim>\<open>detect_peaks\<close> assigns (lines 102 to 120).\<close>

record signals =
  filtered_signal :: "real list"
  differentiated_signal :: "real list"
  squared_signal :: "real list"
  integrated_signal :: "real list"
  detected_peaks_indices :: "nat list"
  detected_peaks_values :: "real list"

text \<open>
  \<^verbatim>\<open>detect_peaks\<close>: the amplitude column of the loaded rows, the band-pass filter, the
  difference, the square, the moving-window integration, the peak finder on the
  integrated signal and the values at the peaks. An exception at any stage ends the
  call.
\<close>

definition detect_peaks ::
  "butter_design \<Rightarrow> lfilter_apply \<Rightarrow> config \<Rightarrow> (real \<times> real) list \<Rightarrow> error + signals" where
  "detect_peaks butter lfilter cfg ecg_data =
     (let ecg_measurements = map snd ecg_data
      in case bandpass_filter butter lfilter ecg_measurements (filter_lowcut cfg)
                (filter_highcut cfg) (signal_frequency cfg) (filter_order cfg) of
           Inl e \<Rightarrow> Inl e
         | Inr filtered \<Rightarrow>
             let differentiated = ediff1d filtered;
                 squared = map (\<lambda>d. d ^ 2) differentiated
             in case ones (integration_window cfg) of
                  Inl e \<Rightarrow> Inl e
                | Inr window \<Rightarrow>
                    (case convolve squared window of
                       Inl e \<Rightarrow> Inl e
                     | Inr integrated \<Rightarrow>
                         (case findpeaks integrated (findpeaks_spacing cfg)
                                 (Some (findpeaks_limit cfg)) of
                            Inl e \<Rightarrow> Inl e
                          | Inr ind \<Rightarrow>
                              Inr \<lparr>filtered_signal = filtered,
                                   differentiated_signal = differentiated,
                                   squared_signal = squared,
                                   integrated_signal = integrated,
                                   detected_peaks_indices = ind,
                                   detected_peaks_values = map (\<lambda>i. integrated ! i) ind\<rparr>)))"

text \<open>
  A filter to run examples with, in place of the library: the design returns the
  coefficients \<open>b = [1]\<close>, \<open>a = [1]\<close> and the application returns the data unchanged.
\<close>

definition passthrough_butter :: butter_design where
  "passthrough_butter order band = Inr ([1], [1])"

definition passthrough_lfilter :: lfilter_apply where
  "passthrough_lfilter b a data = Inr data"

section \<open>Lemmas about one iteration and about the loop of \<^verbatim>\<open>detect_qrs\<close>\<close>

lemma last_qrs_index_nonempty:
  "qrs_peaks_indices self \<noteq> [] \<Longrightarrow> last_qrs_index self = last (qrs_peaks_indices self)"
  by (cases "qrs_peaks_indices self") (simp_all add: last_qrs_index_def)

lemma step_accept:
  assumes "eligible cfg self (fst c)" and "snd c > threshold_value self"
  shows "qrs_peaks_indices (detect_qrs_step cfg self c) = qrs_peaks_indices self @ [fst c]"
    and "noise_peaks_indices (detect_qrs_step cfg self c) = noise_peaks_indices self"
  using assms by (simp_all add: detect_qrs_step_def classify_peak_def adjust_threshold_def)

lemma step_reject:
  assumes "eligible cfg self (fst c)" and "\<not> snd c > threshold_value self"
  shows "qrs_peaks_indices (detect_qrs_step cfg self c) = qrs_peaks_indices self"
    and "noise_peaks_indices (detect_qrs_step cfg self c) = noise_peaks_indices self @ [fst c]"
  using assms by (simp_all add: detect_qrs_step_def classify_peak_def adjust_threshold_def)

lemma step_skip:
  "\<not> eligible cfg self (fst c) \<Longrightarrow> detect_qrs_step cfg self c = self"
  by (simp add: detect_qrs_step_def)

lemma run_partition:
  "\<exists>qs ns.
     qrs_peaks_indices (foldl (detect_qrs_step cfg) self cs) = qrs_peaks_indices self @ qs
   \<and> noise_peaks_indices (foldl (detect_qrs_step cfg) self cs) = noise_peaks_indices self @ ns
   \<and> subseq qs (map fst cs) \<and> subseq ns (map fst cs)
   \<and> mset qs + mset ns + mset (skipped_indices cfg self cs) = mset (map fst cs)"
proof (induction cs arbitrary: self)
  case Nil
  show ?case by simp
next
  case (Cons c cs)
  let ?s = "detect_qrs_step cfg self c"
  from Cons.IH [of ?s] obtain qs ns where
    q: "qrs_peaks_indices (foldl (detect_qrs_step cfg) ?s cs) = qrs_peaks_indices ?s @ qs" and
    n: "noise_peaks_indices (foldl (detect_qrs_step cfg) ?s cs) = noise_peaks_indices ?s @ ns" and
    sq: "subseq qs (map fst cs)" and sn: "subseq ns (map fst cs)" and
    m: "mset qs + mset ns + mset (skipped_indices cfg ?s cs) = mset (map fst cs)"
    by blast
  consider (acc) "eligible cfg self (fst c)" "snd c > threshold_value self"
    | (rej) "eligible cfg self (fst c)" "\<not> snd c > threshold_value self"
    | (skip) "\<not> eligible cfg self (fst c)"
    by blast
  then show ?case
  proof cases
    case acc
    have "qrs_peaks_indices (foldl (detect_qrs_step cfg) self (c # cs))
            = qrs_peaks_indices self @ (fst c # qs)"
      using q step_accept(1) [OF acc] by simp
    moreover have "noise_peaks_indices (foldl (detect_qrs_step cfg) self (c # cs))
            = noise_peaks_indices self @ ns"
      using n step_accept(2) [OF acc] by simp
    moreover have "subseq (fst c # qs) (map fst (c # cs))" using sq by simp
    moreover have "subseq ns (map fst (c # cs))" using sn by (simp add: list_emb_Cons)
    moreover have "mset (fst c # qs) + mset ns + mset (skipped_indices cfg self (c # cs))
            = mset (map fst (c # cs))"
      using m acc(1) by simp
    ultimately show ?thesis by blast
  next
    case rej
    have "qrs_peaks_indices (foldl (detect_qrs_step cfg) self (c # cs))
            = qrs_peaks_indices self @ qs"
      using q step_reject(1) [OF rej] by simp
    moreover have "noise_peaks_indices (foldl (detect_qrs_step cfg) self (c # cs))
            = noise_peaks_indices self @ (fst c # ns)"
      using n step_reject(2) [OF rej] by simp
    moreover have "subseq qs (map fst (c # cs))" using sq by (simp add: list_emb_Cons)
    moreover have "subseq (fst c # ns) (map fst (c # cs))" using sn by simp
    moreover have "mset qs + mset (fst c # ns) + mset (skipped_indices cfg self (c # cs))
            = mset (map fst (c # cs))"
      using m rej(1) by simp
    ultimately show ?thesis by blast
  next
    case skip
    have e: "?s = self" using skip by (rule step_skip)
    have "qrs_peaks_indices (foldl (detect_qrs_step cfg) self (c # cs))
            = qrs_peaks_indices self @ qs"
      using q e by simp
    moreover have "noise_peaks_indices (foldl (detect_qrs_step cfg) self (c # cs))
            = noise_peaks_indices self @ ns"
      using n e by simp
    moreover have "subseq qs (map fst (c # cs))" using sq by (simp add: list_emb_Cons)
    moreover have "subseq ns (map fst (c # cs))" using sn by (simp add: list_emb_Cons)
    moreover have "mset qs + mset ns + mset (skipped_indices cfg self (c # cs))
            = mset (map fst (c # cs))"
      using m skip by simp
    ultimately show ?thesis by blast
  qed
qed

lemma run_from_init:
  "mset (qrs_peaks_indices (detect_qrs cfg init_classifier idxs vals))
   + mset (noise_peaks_indices (detect_qrs cfg init_classifier idxs vals))
   + mset (skipped_indices cfg init_classifier (zip idxs vals))
   = mset (map fst (zip idxs vals))
   \<and> subseq (qrs_peaks_indices (detect_qrs cfg init_classifier idxs vals)) (map fst (zip idxs vals))
   \<and> subseq (noise_peaks_indices (detect_qrs cfg init_classifier idxs vals)) (map fst (zip idxs vals))"
  using run_partition [of cfg init_classifier "zip idxs vals"]
  by (auto simp: detect_qrs_def init_classifier_def)

lemma gap_step:
  assumes "successively (\<lambda>a b. b - a > refractory_period cfg) (qrs_peaks_indices self)"
  shows "successively (\<lambda>a b. b - a > refractory_period cfg)
           (qrs_peaks_indices (detect_qrs_step cfg self c))"
proof (cases "eligible cfg self (fst c) \<and> snd c > threshold_value self")
  case True
  then have "qrs_peaks_indices (detect_qrs_step cfg self c) = qrs_peaks_indices self @ [fst c]"
    by (simp add: step_accept(1))
  moreover have "qrs_peaks_indices self = []
      \<or> fst c - last (qrs_peaks_indices self) > refractory_period cfg"
    using True by (cases "qrs_peaks_indices self = []") (simp_all add: eligible_def last_qrs_index_nonempty)
  ultimately show ?thesis
    using assms by (auto simp: successively_append_iff)
next
  case False
  then have "qrs_peaks_indices (detect_qrs_step cfg self c) = qrs_peaks_indices self"
    by (cases "eligible cfg self (fst c)") (simp_all add: step_reject(1) step_skip)
  then show ?thesis using assms by simp
qed

lemma gap_run:
  "successively (\<lambda>a b. b - a > refractory_period cfg) (qrs_peaks_indices self) \<Longrightarrow>
   successively (\<lambda>a b. b - a > refractory_period cfg)
     (qrs_peaks_indices (foldl (detect_qrs_step cfg) self cs))"
  by (induction cs arbitrary: self) (simp_all add: gap_step)

lemma gaps_all_pairs:
  fixes q :: "int list"
  assumes "successively (\<lambda>a b. b - a > r) q" and "i < j" and "j < length q"
  shows "\<bar>q ! j - q ! i\<bar> > r"
proof (cases "0 \<le> r")
  case True
  have "transp (\<lambda>a b :: int. b - a > r)"
    using True by (auto simp: transp_def)
  then have "sorted_wrt (\<lambda>a b. b - a > r) q"
    using assms(1) by (simp add: successively_conv_sorted_wrt)
  then have "q ! j - q ! i > r"
    using assms(2,3) by (simp add: sorted_wrt_iff_nth_less)
  then show ?thesis by simp
next
  case False
  then show ?thesis by simp
qed

lemma processed_candidates:
  "map fst (zip idxs vals) = take (length vals) idxs"
  by (simp add: map_fst_zip_take min_def)

lemma processed_distinct:
  "distinct idxs \<Longrightarrow> distinct (map fst (zip (idxs :: int list) (vals :: real list)))"
  by (simp add: processed_candidates)

lemma run_distinct:
  assumes "distinct (map fst cs)"
  shows "distinct (qrs_peaks_indices (foldl (detect_qrs_step cfg) init_classifier cs)
           @ noise_peaks_indices (foldl (detect_qrs_step cfg) init_classifier cs)
           @ skipped_indices cfg init_classifier cs)"
proof -
  obtain qs ns where
    q: "qrs_peaks_indices (foldl (detect_qrs_step cfg) init_classifier cs) = qs" and
    n: "noise_peaks_indices (foldl (detect_qrs_step cfg) init_classifier cs) = ns" and
    m: "mset qs + mset ns + mset (skipped_indices cfg init_classifier cs) = mset (map fst cs)"
    using run_partition [of cfg init_classifier cs] by (auto simp: init_classifier_def)
  have "mset (qs @ ns @ skipped_indices cfg init_classifier cs) = mset (map fst cs)"
    using m by (simp add: ac_simps)
  then have "distinct (qs @ ns @ skipped_indices cfg init_classifier cs)"
    using assms mset_eq_imp_distinct_iff by blast
  then show ?thesis using q n by simp
qed

section \<open>The refractory rule leaves the state alone\<close>


text \<open>
  C5. When at least one QRS has been accepted and the candidate's index is at most
  \<^verbatim>\<open>refractory_period\<close> beyond the last accepted index, the iteration changes nothing:
  both index sequences, both levels and the threshold are as before, for one iteration
  and for a call of \<^verbatim>\<open>detect_qrs\<close> on that candidate alone.
\<close>

theorem refractory_candidate_skipped:
  assumes "qrs_peaks_indices self \<noteq> []"
    and "idx - last (qrs_peaks_indices self) \<le> refractory_period cfg"
  shows "detect_qrs_step cfg self (idx, v) = self
    \<and> detect_qrs cfg self [idx] [v] = self
    \<and> qrs_peaks_indices (detect_qrs_step cfg self (idx, v)) = qrs_peaks_indices self
    \<and> noise_peaks_indices (detect_qrs_step cfg self (idx, v)) = noise_peaks_indices self
    \<and> signal_peak_value (detect_qrs_step cfg self (idx, v)) = signal_peak_value self
    \<and> noise_peak_value (detect_qrs_step cfg self (idx, v)) = noise_peak_value self
    \<and> threshold_value (detect_qrs_step cfg self (idx, v)) = threshold_value self"
proof -
  have "\<not> eligible cfg self idx"
    using assms by (simp add: eligible_def last_qrs_index_nonempty)
  then have "detect_qrs_step cfg self (idx, v) = self"
    by (simp add: detect_qrs_step_def)
  then show ?thesis
    by (simp add: detect_qrs_def)
qed

theorem refractory_candidate_skipped_witness:
  "qrs_peaks_indices (init_classifier\<lparr>qrs_peaks_indices := [10]\<rparr>) \<noteq> []
   \<and> 20 - last (qrs_peaks_indices (init_classifier\<lparr>qrs_peaks_indices := [10]\<rparr>))
        \<le> refractory_period default_config
   \<and> detect_qrs_step default_config (init_classifier\<lparr>qrs_peaks_indices := [10]\<rparr>) (20, 1)
        = init_classifier\<lparr>qrs_peaks_indices := [10]\<rparr>
   \<and> detect_qrs default_config (init_classifier\<lparr>qrs_peaks_indices := [10]\<rparr>) [20] [1]
        = init_classifier\<lparr>qrs_peaks_indices := [10]\<rparr>"
  using refractory_candidate_skipped
    [of "init_classifier\<lparr>qrs_peaks_indices := [10]\<rparr>" 20 default_config 1]
  by (simp add: init_classifier_def default_config_def)

section \<open>Accepted indices are more than a refractory period apart\<close>

text \<open>
  C1. After \<^verbatim>\<open>detect_qrs\<close> has run from the initial state on any candidates, any two
  positions of the QRS index sequence hold indices that differ by more than
  \<^verbatim>\<open>refractory_period\<close>, and each accepted index exceeds the one accepted before it by
  more than \<^verbatim>\<open>refractory_period\<close> (the first two included). In any state with an
  accepted QRS, an iteration that changes the state at all, so also one that accepts its
  candidate, has a candidate whose index minus the last accepted index exceeds
  \<^verbatim>\<open>refractory_period\<close>.
\<close>

theorem accepted_qrs_spacing:
  "(\<forall>i j. i < j \<and> j < length (qrs_peaks_indices (detect_qrs cfg init_classifier idxs vals)) \<longrightarrow>
      refractory_period cfg
        < \<bar>qrs_peaks_indices (detect_qrs cfg init_classifier idxs vals) ! j
           - qrs_peaks_indices (detect_qrs cfg init_classifier idxs vals) ! i\<bar>)
   \<and> (\<forall>i. Suc i < length (qrs_peaks_indices (detect_qrs cfg init_classifier idxs vals)) \<longrightarrow>
      refractory_period cfg
        < qrs_peaks_indices (detect_qrs cfg init_classifier idxs vals) ! Suc i
          - qrs_peaks_indices (detect_qrs cfg init_classifier idxs vals) ! i)
   \<and> (qrs_peaks_indices self \<noteq> [] \<and> detect_qrs_step cfg self (idx, v) \<noteq> self \<longrightarrow>
      refractory_period cfg < idx - last (qrs_peaks_indices self))"
proof -
  let ?q = "qrs_peaks_indices (detect_qrs cfg init_classifier idxs vals)"
  have s: "successively (\<lambda>a b. b - a > refractory_period cfg) ?q"
    unfolding detect_qrs_def by (rule gap_run) (simp add: init_classifier_def)
  have a: "\<forall>i j. i < j \<and> j < length ?q \<longrightarrow> refractory_period cfg < \<bar>?q ! j - ?q ! i\<bar>"
    using gaps_all_pairs [OF s] by blast
  have b: "\<forall>i. Suc i < length ?q \<longrightarrow> refractory_period cfg < ?q ! Suc i - ?q ! i"
    using successively_nth [OF s] by blast
  have c: "qrs_peaks_indices self \<noteq> [] \<and> detect_qrs_step cfg self (idx, v) \<noteq> self \<longrightarrow>
      refractory_period cfg < idx - last (qrs_peaks_indices self)"
  proof
    assume h: "qrs_peaks_indices self \<noteq> [] \<and> detect_qrs_step cfg self (idx, v) \<noteq> self"
    then have "eligible cfg self idx"
      using step_skip [of cfg self "(idx, v)"] by auto
    then show "refractory_period cfg < idx - last (qrs_peaks_indices self)"
      using h by (simp add: eligible_def last_qrs_index_nonempty)
  qed
  from a b c show ?thesis by blast
qed

theorem accepted_qrs_spacing_witness:
  "(0::nat) < 1
   \<and> 1 < length (qrs_peaks_indices (detect_qrs default_config init_classifier [10, 20, 200, 400] [1, 1, 1, 1]))
   \<and> refractory_period default_config
        < \<bar>qrs_peaks_indices (detect_qrs default_config init_classifier [10, 20, 200, 400] [1, 1, 1, 1]) ! 1
           - qrs_peaks_indices (detect_qrs default_config init_classifier [10, 20, 200, 400] [1, 1, 1, 1]) ! 0\<bar>
   \<and> qrs_peaks_indices (init_classifier\<lparr>qrs_peaks_indices := [10]\<rparr>) \<noteq> []
   \<and> detect_qrs_step default_config (init_classifier\<lparr>qrs_peaks_indices := [10]\<rparr>) (200, 1)
        \<noteq> init_classifier\<lparr>qrs_peaks_indices := [10]\<rparr>
   \<and> refractory_period default_config
        < 200 - last (qrs_peaks_indices (init_classifier\<lparr>qrs_peaks_indices := [10]\<rparr>))"
proof -
  have e: "qrs_peaks_indices (detect_qrs default_config init_classifier [10, 20, 200, 400] [1, 1, 1, 1])
             = [10, 200, 400]"
    by code_simp
  have f: "qrs_peaks_indices (detect_qrs_step default_config
             (init_classifier\<lparr>qrs_peaks_indices := [10]\<rparr>) (200, 1)) = [10, 200]"
    by code_simp
  have g: "detect_qrs_step default_config (init_classifier\<lparr>qrs_peaks_indices := [10]\<rparr>) (200, 1)
        \<noteq> init_classifier\<lparr>qrs_peaks_indices := [10]\<rparr>"
    using f by (auto simp: init_classifier_def)
  show ?thesis
    using accepted_qrs_spacing [of default_config "[10, 20, 200, 400]" "[1, 1, 1, 1]"
        "init_classifier\<lparr>qrs_peaks_indices := [10]\<rparr>" 200 1] e g
    by (simp add: init_classifier_def)
qed

section \<open>Where the candidates go\<close>

text \<open>
  C3. For candidates given in strictly ascending index order (no index twice, as the
  peak finder produces them), after \<^verbatim>\<open>detect_qrs\<close> has run from the initial state: the
  QRS and the noise index sequences have no index in common; each is a subsequence of
  the candidate index sequence; their indices together with those of the candidates
  turned away by the refractory rule are exactly the indices of the candidates of the
  loop (\<^verbatim>\<open>zip\<close> of the two arrays, all of \<^verbatim>\<open>detected_peaks_indices\<close> when the arrays
  are equally long). In any state, an iteration whose candidate passes the guard
  appends its index to exactly one of the two sequences and leaves the other as it was.
\<close>

theorem qrs_noise_skipped_cover:
  assumes "sorted_wrt (<) idxs"
  shows "set (qrs_peaks_indices (detect_qrs cfg init_classifier idxs vals))
           \<inter> set (noise_peaks_indices (detect_qrs cfg init_classifier idxs vals)) = {}
    \<and> subseq (qrs_peaks_indices (detect_qrs cfg init_classifier idxs vals)) idxs
    \<and> subseq (noise_peaks_indices (detect_qrs cfg init_classifier idxs vals)) idxs
    \<and> set (qrs_peaks_indices (detect_qrs cfg init_classifier idxs vals))
        \<union> set (noise_peaks_indices (detect_qrs cfg init_classifier idxs vals))
        \<union> set (skipped_indices cfg init_classifier (zip idxs vals))
      = set (map fst (zip idxs vals))
    \<and> (eligible cfg self idx \<longrightarrow>
         (qrs_peaks_indices (detect_qrs_step cfg self (idx, v)) = qrs_peaks_indices self @ [idx]
            \<and> noise_peaks_indices (detect_qrs_step cfg self (idx, v)) = noise_peaks_indices self)
         \<or> (qrs_peaks_indices (detect_qrs_step cfg self (idx, v)) = qrs_peaks_indices self
            \<and> noise_peaks_indices (detect_qrs_step cfg self (idx, v))
                = noise_peaks_indices self @ [idx]))"
proof -
  let ?cs = "zip idxs vals"
  let ?r = "detect_qrs cfg init_classifier idxs vals"
  have d: "distinct (map fst ?cs)"
    using assms by (intro processed_distinct) (simp add: strict_sorted_iff)
  have "distinct (qrs_peaks_indices ?r @ noise_peaks_indices ?r
          @ skipped_indices cfg init_classifier ?cs)"
    using run_distinct [OF d, of cfg] by (simp add: detect_qrs_def)
  then have a: "set (qrs_peaks_indices ?r) \<inter> set (noise_peaks_indices ?r) = {}"
    by auto
  have p: "map fst ?cs = take (length vals) idxs"
    by (rule processed_candidates)
  have "subseq (take (length vals) idxs) (take (length vals) idxs @ drop (length vals) idxs)"
    by (rule list_emb_prefix) simp
  then have pre: "subseq (map fst ?cs) idxs"
    unfolding p by (simp only: append_take_drop_id)
  have b: "subseq (qrs_peaks_indices ?r) idxs" "subseq (noise_peaks_indices ?r) idxs"
    using run_from_init [of cfg idxs vals] pre subseq_order.order_trans by blast+
  have "set_mset (mset (qrs_peaks_indices ?r) + mset (noise_peaks_indices ?r)
          + mset (skipped_indices cfg init_classifier ?cs)) = set_mset (mset (map fst ?cs))"
    using run_from_init [of cfg idxs vals] by simp
  then have c: "set (qrs_peaks_indices ?r) \<union> set (noise_peaks_indices ?r)
        \<union> set (skipped_indices cfg init_classifier ?cs) = set (map fst ?cs)"
    by simp
  have e: "eligible cfg self idx \<longrightarrow>
         (qrs_peaks_indices (detect_qrs_step cfg self (idx, v)) = qrs_peaks_indices self @ [idx]
            \<and> noise_peaks_indices (detect_qrs_step cfg self (idx, v)) = noise_peaks_indices self)
         \<or> (qrs_peaks_indices (detect_qrs_step cfg self (idx, v)) = qrs_peaks_indices self
            \<and> noise_peaks_indices (detect_qrs_step cfg self (idx, v))
                = noise_peaks_indices self @ [idx])"
    using step_accept [of cfg self "(idx, v)"] step_reject [of cfg self "(idx, v)"]
    by (cases "v > threshold_value self") simp_all
  from a b c e show ?thesis by blast
qed

theorem qrs_noise_skipped_cover_witness:
  "sorted_wrt (<) [10, 20, 200, 400 :: int]
   \<and> set (qrs_peaks_indices (detect_qrs default_config init_classifier [10, 20, 200, 400] [1, 1, 1, 0]))
        \<inter> set (noise_peaks_indices (detect_qrs default_config init_classifier [10, 20, 200, 400] [1, 1, 1, 0])) = {}
   \<and> qrs_peaks_indices (detect_qrs default_config init_classifier [10, 20, 200, 400] [1, 1, 1, 0]) = [10, 200]
   \<and> noise_peaks_indices (detect_qrs default_config init_classifier [10, 20, 200, 400] [1, 1, 1, 0]) = [400]
   \<and> skipped_indices default_config init_classifier (zip [10, 20, 200, 400] [1, 1, 1, 0]) = [20]
   \<and> subseq [10, 200] [10, 20, 200, 400 :: int]
   \<and> eligible default_config init_classifier 10
   \<and> qrs_peaks_indices (detect_qrs_step default_config init_classifier (10, 1)) = [10]
   \<and> noise_peaks_indices (detect_qrs_step default_config init_classifier (10, 1)) = []"
proof -
  have q: "qrs_peaks_indices (detect_qrs default_config init_classifier [10, 20, 200, 400] [1, 1, 1, 0])
             = [10, 200]"
    by code_simp
  have n: "noise_peaks_indices (detect_qrs default_config init_classifier [10, 20, 200, 400] [1, 1, 1, 0])
             = [400]"
    by code_simp
  have s: "skipped_indices default_config init_classifier (zip [10, 20, 200, 400] [1, 1, 1, 0]) = [20]"
    by code_simp
  have h: "sorted_wrt (<) [10, 20, 200, 400 :: int]"
    by simp
  have e: "eligible default_config init_classifier 10"
    by (simp add: eligible_def init_classifier_def)
  have t: "qrs_peaks_indices (detect_qrs_step default_config init_classifier (10, 1)) = [10]"
    "noise_peaks_indices (detect_qrs_step default_config init_classifier (10, 1)) = []"
    by code_simp+
  show ?thesis
    using qrs_noise_skipped_cover [OF h, of default_config "[1, 1, 1, 0]" init_classifier 10 1]
      q n s e t
    by simp
qed

text \<open>
  Without the order the first part fails: when an index is given twice, once with a
  value that is recorded as noise and once with one that is accepted, it is in both
  outputs.
\<close>

lemma repeated_index_in_both_outputs:
  "qrs_peaks_indices (detect_qrs default_config init_classifier [5, 5] [0, 1]) = [5]
   \<and> noise_peaks_indices (detect_qrs default_config init_classifier [5, 5] [0, 1]) = [5]"
  by code_simp

text \<open>
  The two outputs alone do not hold every candidate: with the default configuration
  and candidates at 10 and 20, both of value 1, the first is accepted and the second,
  10 samples later, is in neither sequence.
\<close>

theorem skipped_candidate_counterexample:
  "qrs_peaks_indices (detect_qrs default_config init_classifier [10, 20] [1, 1]) = [10]
   \<and> noise_peaks_indices (detect_qrs default_config init_classifier [10, 20] [1, 1]) = []"
  by code_simp

text \<open>
  C10, as amended. Every candidate of the loop is counted exactly once among the QRS
  sequence, the noise sequence and the candidates turned away by the refractory rule;
  when no index occurs twice, every candidate index is in exactly one of these three.
  So the two outputs partition the candidates that were not turned away, not all of
  them.
\<close>

theorem candidates_classified_or_skipped:
  "mset (qrs_peaks_indices (detect_qrs cfg init_classifier idxs vals))
     + mset (noise_peaks_indices (detect_qrs cfg init_classifier idxs vals))
     + mset (skipped_indices cfg init_classifier (zip idxs vals))
   = mset (map fst (zip idxs vals))
   \<and> (distinct idxs \<longrightarrow>
       (\<forall>i \<in> set (map fst (zip idxs vals)).
          (i \<in> set (qrs_peaks_indices (detect_qrs cfg init_classifier idxs vals))
             \<and> i \<notin> set (noise_peaks_indices (detect_qrs cfg init_classifier idxs vals))
             \<and> i \<notin> set (skipped_indices cfg init_classifier (zip idxs vals)))
          \<or> (i \<notin> set (qrs_peaks_indices (detect_qrs cfg init_classifier idxs vals))
             \<and> i \<in> set (noise_peaks_indices (detect_qrs cfg init_classifier idxs vals))
             \<and> i \<notin> set (skipped_indices cfg init_classifier (zip idxs vals)))
          \<or> (i \<notin> set (qrs_peaks_indices (detect_qrs cfg init_classifier idxs vals))
             \<and> i \<notin> set (noise_peaks_indices (detect_qrs cfg init_classifier idxs vals))
             \<and> i \<in> set (skipped_indices cfg init_classifier (zip idxs vals)))))"
proof -
  let ?cs = "zip idxs vals"
  let ?q = "qrs_peaks_indices (detect_qrs cfg init_classifier idxs vals)"
  let ?n = "noise_peaks_indices (detect_qrs cfg init_classifier idxs vals)"
  let ?k = "skipped_indices cfg init_classifier ?cs"
  have m: "mset ?q + mset ?n + mset ?k = mset (map fst ?cs)"
    using run_from_init [of cfg idxs vals] by blast
  have "\<forall>i \<in> set (map fst ?cs).
          (i \<in> set ?q \<and> i \<notin> set ?n \<and> i \<notin> set ?k)
          \<or> (i \<notin> set ?q \<and> i \<in> set ?n \<and> i \<notin> set ?k)
          \<or> (i \<notin> set ?q \<and> i \<notin> set ?n \<and> i \<in> set ?k)" if d: "distinct idxs"
  proof -
    have "distinct (?q @ ?n @ ?k)"
      using run_distinct [OF processed_distinct [OF d, of vals], of cfg] by (simp add: detect_qrs_def)
    then have x: "set ?q \<inter> set ?n = {}" "set ?q \<inter> set ?k = {}" "set ?n \<inter> set ?k = {}"
      by auto
    have "set_mset (mset ?q + mset ?n + mset ?k) = set_mset (mset (map fst ?cs))"
      using m by simp
    then have "set ?q \<union> set ?n \<union> set ?k = set (map fst ?cs)"
      by simp
    with x show ?thesis by blast
  qed
  with m show ?thesis by blast
qed

theorem candidates_classified_or_skipped_witness:
  "distinct [10, 20, 200, 400 :: int]
   \<and> 20 \<in> set (map fst (zip [10, 20, 200, 400 :: int] [1, 1, 1, 0 :: real]))
   \<and> 20 \<notin> set (qrs_peaks_indices (detect_qrs default_config init_classifier [10, 20, 200, 400] [1, 1, 1, 0]))
   \<and> 20 \<notin> set (noise_peaks_indices (detect_qrs default_config init_classifier [10, 20, 200, 400] [1, 1, 1, 0]))
   \<and> 20 \<in> set (skipped_indices default_config init_classifier (zip [10, 20, 200, 400] [1, 1, 1, 0]))"
proof -
  have q: "qrs_peaks_indices (detect_qrs default_config init_classifier [10, 20, 200, 400] [1, 1, 1, 0])
             = [10, 200]"
    by code_simp
  have n: "noise_peaks_indices (detect_qrs default_config init_classifier [10, 20, 200, 400] [1, 1, 1, 0])
             = [400]"
    by code_simp
  have d: "distinct [10, 20, 200, 400 :: int]"
    by simp
  have i: "20 \<in> set (map fst (zip [10, 20, 200, 400 :: int] [1, 1, 1, 0 :: real]))"
    by simp
  show ?thesis
    using candidates_classified_or_skipped [of default_config "[10, 20, 200, 400]" "[1, 1, 1, 0]"]
      q n d i
    by auto
qed

section \<open>The first candidate\<close>

text \<open>
  A first candidate of value 0 is not accepted: the comparison of line 140 is strict,
  and the candidate is recorded as noise.
\<close>

theorem zero_value_first_candidate_counterexample:
  "qrs_peaks_indices (detect_qrs default_config init_classifier [5] [0]) = []
   \<and> noise_peaks_indices (detect_qrs default_config init_classifier [5] [0]) = [5]"
  by code_simp

text \<open>
  C6, as amended. From the initial state (both levels and the threshold 0, no QRS
  accepted) the first candidate always passes the guard of line 137. It is accepted as
  QRS, and stays the first accepted index of the run, when its value is strictly
  positive; a value of 0 or less makes it the first noise index instead.
\<close>

theorem first_candidate_bootstrap:
  "eligible cfg init_classifier idx
   \<and> (0 < v \<longrightarrow>
        qrs_peaks_indices (detect_qrs_step cfg init_classifier (idx, v)) = [idx]
        \<and> noise_peaks_indices (detect_qrs_step cfg init_classifier (idx, v)) = []
        \<and> take 1 (qrs_peaks_indices (detect_qrs cfg init_classifier (idx # idxs) (v # vals))) = [idx])
   \<and> (v \<le> 0 \<longrightarrow>
        qrs_peaks_indices (detect_qrs_step cfg init_classifier (idx, v)) = []
        \<and> noise_peaks_indices (detect_qrs_step cfg init_classifier (idx, v)) = [idx]
        \<and> take 1 (noise_peaks_indices (detect_qrs cfg init_classifier (idx # idxs) (v # vals))) = [idx])"
proof -
  have e: "eligible cfg init_classifier idx"
    by (simp add: eligible_def init_classifier_def)
  have t: "threshold_value init_classifier = 0"
    by (simp add: init_classifier_def)
  obtain qs ns where
    q: "qrs_peaks_indices (detect_qrs cfg init_classifier (idx # idxs) (v # vals))
          = qrs_peaks_indices (detect_qrs_step cfg init_classifier (idx, v)) @ qs" and
    n: "noise_peaks_indices (detect_qrs cfg init_classifier (idx # idxs) (v # vals))
          = noise_peaks_indices (detect_qrs_step cfg init_classifier (idx, v)) @ ns"
    using run_partition [of cfg "detect_qrs_step cfg init_classifier (idx, v)" "zip idxs vals"]
    by (auto simp: detect_qrs_def)
  have pos: "qrs_peaks_indices (detect_qrs_step cfg init_classifier (idx, v)) = [idx]
        \<and> noise_peaks_indices (detect_qrs_step cfg init_classifier (idx, v)) = []" if "0 < v"
    using step_accept [of cfg init_classifier "(idx, v)"] e t that
    by (simp add: init_classifier_def)
  have neg: "qrs_peaks_indices (detect_qrs_step cfg init_classifier (idx, v)) = []
        \<and> noise_peaks_indices (detect_qrs_step cfg init_classifier (idx, v)) = [idx]" if "v \<le> 0"
    using step_reject [of cfg init_classifier "(idx, v)"] e t that
    by (simp add: init_classifier_def)
  show ?thesis
    using e pos neg q n by auto
qed

theorem first_candidate_bootstrap_witness:
  "(0::real) < 1
   \<and> qrs_peaks_indices (detect_qrs_step default_config init_classifier (5, 1)) = [5]
   \<and> take 1 (qrs_peaks_indices (detect_qrs default_config init_classifier [5, 300] [1, 2])) = [5]
   \<and> (0::real) \<le> 0
   \<and> noise_peaks_indices (detect_qrs_step default_config init_classifier (5, 0)) = [5]
   \<and> take 1 (noise_peaks_indices (detect_qrs default_config init_classifier [5, 300] [0, 2])) = [5]"
  using first_candidate_bootstrap [of default_config 5 1 "[300]" "[2]"]
    first_candidate_bootstrap [of default_config 5 0 "[300]" "[2]"]
  by simp

section \<open>Lemmas about the peak finder\<close>

lemma length_padded: "length (padded data spacing) = length data + 2 * spacing"
  by (simp add: padded_def)

lemma length_slice: "start + len \<le> length x \<Longrightarrow> length (slice x start len) = len"
  by (simp add: slice_def)

lemma nth_slice: "start + len \<le> length x \<Longrightarrow> i < len \<Longrightarrow> slice x start len ! i = x ! (start + i)"
  by (simp add: slice_def)

lemma length_peak_step:
  assumes "length x = len + 2 * spacing" and "s < spacing" and "length pc = len"
  shows "length (peak_step x spacing len pc s) = len"
  using assms by (simp add: peak_step_def Let_def length_slice)

lemma nth_peak_step:
  assumes "length x = len + 2 * spacing" and "s < spacing" and "length pc = len" and "i < len"
  shows "peak_step x spacing len pc s ! i \<longleftrightarrow>
           pc ! i \<and> x ! (spacing + i) > x ! (spacing - s - 1 + i)
           \<and> x ! (spacing + i) > x ! (spacing + s + 1 + i)"
  using assms by (simp add: peak_step_def Let_def length_slice nth_slice)

lemma length_peak_loop:
  assumes "length x = len + 2 * spacing" and "\<forall>s \<in> set ss. s < spacing" and "length pc = len"
  shows "length (foldl (peak_step x spacing len) pc ss) = len"
  using assms by (induction ss arbitrary: pc) (simp_all add: length_peak_step)

lemma nth_peak_loop:
  assumes "length x = len + 2 * spacing" and "\<forall>s \<in> set ss. s < spacing" and "length pc = len"
    and "i < len"
  shows "foldl (peak_step x spacing len) pc ss ! i \<longleftrightarrow>
           pc ! i \<and> (\<forall>s \<in> set ss. x ! (spacing + i) > x ! (spacing - s - 1 + i)
                        \<and> x ! (spacing + i) > x ! (spacing + s + 1 + i))"
  using assms
proof (induction ss arbitrary: pc)
  case Nil
  show ?case by simp
next
  case (Cons s ss)
  have s: "s < spacing" using Cons.prems(2) by simp
  have l: "length (peak_step x spacing len pc s) = len"
    using Cons.prems(1) s Cons.prems(3) by (rule length_peak_step)
  have "foldl (peak_step x spacing len) pc (s # ss) ! i
          = foldl (peak_step x spacing len) (peak_step x spacing len pc s) ss ! i"
    by simp
  also have "\<dots> \<longleftrightarrow> peak_step x spacing len pc s ! i
      \<and> (\<forall>t \<in> set ss. x ! (spacing + i) > x ! (spacing - t - 1 + i)
                        \<and> x ! (spacing + i) > x ! (spacing + t + 1 + i))"
    using Cons.IH [OF Cons.prems(1) _ l Cons.prems(4)] Cons.prems(2) by simp
  also have "peak_step x spacing len pc s ! i \<longleftrightarrow>
           pc ! i \<and> x ! (spacing + i) > x ! (spacing - s - 1 + i)
           \<and> x ! (spacing + i) > x ! (spacing + s + 1 + i)"
    using Cons.prems(1) s Cons.prems(3,4) by (rule nth_peak_step)
  finally show ?case by auto
qed

lemma padded_centre:
  "i < length data \<Longrightarrow> padded data spacing ! (spacing + i) = data ! i"
  by (simp add: padded_def nth_append)

lemma padded_before:
  assumes "data \<noteq> []" and "s < spacing" and "i < length data"
  shows "padded data spacing ! (spacing - s - 1 + i) = neighbour data (int i - (int s + 1))"
proof (cases "i < s + 1")
  case True
  then have "spacing - s - 1 + i < spacing" using assms(2) by simp
  then have "padded data spacing ! (spacing - s - 1 + i) = hd data - epsilon"
    by (simp add: padded_def nth_append)
  moreover have "neighbour data (int i - (int s + 1)) = data ! 0 - epsilon"
    using True by (simp add: neighbour_def)
  ultimately show ?thesis using assms(1) by (simp add: hd_conv_nth)
next
  case False
  then have e: "spacing - s - 1 + i = spacing + (i - (s + 1))" using assms(2) by simp
  have "i - (s + 1) < length data" using assms(3) by simp
  then have "padded data spacing ! (spacing - s - 1 + i) = data ! (i - (s + 1))"
    unfolding e by (rule padded_centre)
  moreover have "neighbour data (int i - (int s + 1)) = data ! (i - (s + 1))"
  proof -
    have "nat (int i - (int s + 1)) = i - (s + 1)" by linarith
    moreover have "\<not> int i - (int s + 1) < 0" "\<not> int (length data) \<le> int i - (int s + 1)"
      using False assms(3) by linarith+
    ultimately show ?thesis unfolding neighbour_def by (simp only: if_False)
  qed
  ultimately show ?thesis by simp
qed

lemma padded_after:
  assumes "data \<noteq> []" and "s < spacing" and "i < length data"
  shows "padded data spacing ! (spacing + s + 1 + i) = neighbour data (int i + (int s + 1))"
proof (cases "i + s + 1 < length data")
  case True
  have e: "spacing + s + 1 + i = spacing + (i + s + 1)" by simp
  have "padded data spacing ! (spacing + s + 1 + i) = data ! (i + s + 1)"
    unfolding e using True by (rule padded_centre)
  moreover have "neighbour data (int i + (int s + 1)) = data ! (i + s + 1)"
  proof -
    have "nat (int i + (int s + 1)) = i + s + 1" by linarith
    moreover have "\<not> int i + (int s + 1) < 0" "\<not> int (length data) \<le> int i + (int s + 1)"
      using True by linarith+
    ultimately show ?thesis unfolding neighbour_def by (simp only: if_False)
  qed
  ultimately show ?thesis by simp
next
  case False
  then have a: "\<not> spacing + s + 1 + i < spacing" "\<not> s + 1 + i < length data"
    by simp_all
  have b: "s + 1 + i - length data < spacing" using assms(2,3) by simp
  have "padded data spacing ! (spacing + s + 1 + i) = last data - epsilon"
    using a b by (simp add: padded_def nth_append)
  moreover have "neighbour data (int i + (int s + 1)) = data ! (length data - 1) - epsilon"
    using False by (simp add: neighbour_def)
  ultimately show ?thesis using assms(1) by (simp add: last_conv_nth)
qed

lemma peak_candidate_strict_peak:
  assumes "data \<noteq> []" and "i < length data"
  shows "foldl (peak_step (padded data spacing) spacing (length data))
           (replicate (length data) True) [0..<spacing] ! i
         \<longleftrightarrow> strict_peak data spacing i"
proof -
  have "foldl (peak_step (padded data spacing) spacing (length data))
           (replicate (length data) True) [0..<spacing] ! i
        \<longleftrightarrow> replicate (length data) True ! i
            \<and> (\<forall>s \<in> set [0..<spacing].
                 padded data spacing ! (spacing + i) > padded data spacing ! (spacing - s - 1 + i)
                 \<and> padded data spacing ! (spacing + i) > padded data spacing ! (spacing + s + 1 + i))"
    by (rule nth_peak_loop) (simp_all add: length_padded assms(2))
  also have "\<dots> \<longleftrightarrow> (\<forall>s \<in> set [0..<spacing].
        data ! i > neighbour data (int i - (int s + 1))
        \<and> data ! i > neighbour data (int i + (int s + 1)))"
  proof -
    have r: "replicate (length data) True ! i = True"
      using assms(2) by simp
    have "(\<forall>s \<in> set [0..<spacing].
                 padded data spacing ! (spacing + i) > padded data spacing ! (spacing - s - 1 + i)
                 \<and> padded data spacing ! (spacing + i) > padded data spacing ! (spacing + s + 1 + i))
      \<longleftrightarrow> (\<forall>s \<in> set [0..<spacing].
        data ! i > neighbour data (int i - (int s + 1))
        \<and> data ! i > neighbour data (int i + (int s + 1)))"
    proof (rule ball_cong)
      fix s assume "s \<in> set [0..<spacing]"
      then have s: "s < spacing" by simp
      show "padded data spacing ! (spacing + i) > padded data spacing ! (spacing - s - 1 + i)
            \<and> padded data spacing ! (spacing + i) > padded data spacing ! (spacing + s + 1 + i)
        \<longleftrightarrow> data ! i > neighbour data (int i - (int s + 1))
            \<and> data ! i > neighbour data (int i + (int s + 1))"
        by (simp only: padded_centre [OF assms(2)] padded_before [OF assms(1) s assms(2)]
            padded_after [OF assms(1) s assms(2)])
    qed (rule refl)
    then show ?thesis by (simp only: r simp_thms)
  qed
  finally show ?thesis by (simp add: strict_peak_def)
qed

lemma findpeaks_refines:
  assumes "data \<noteq> []"
  shows "findpeaks data spacing limit = Inr (findpeaks_spec data spacing limit)"
proof -
  let ?pc = "foldl (peak_step (padded data spacing) spacing (length data))
           (replicate (length data) True) [0..<spacing]"
  have i: "filter (\<lambda>i. ?pc ! i) [0..<length data]
         = filter (strict_peak data spacing) [0..<length data]"
    by (rule filter_cong) (simp_all add: peak_candidate_strict_peak [OF assms])
  show ?thesis
  proof (cases limit)
    case None
    then show ?thesis
      using assms by (simp add: findpeaks_def findpeaks_spec_def Let_def i)
  next
    case (Some l)
    have "filter (\<lambda>i. data ! i > l) (filter (\<lambda>i. ?pc ! i) [0..<length data])
        = filter (\<lambda>i. data ! i > l) (filter (strict_peak data spacing) [0..<length data])"
      by (simp only: i)
    also have "\<dots> = filter (\<lambda>i. strict_peak data spacing i \<and> data ! i > l) [0..<length data]"
      by (simp add: conj_commute)
    finally show ?thesis
      using assms Some by (simp add: findpeaks_def findpeaks_spec_def Let_def)
  qed
qed

lemma strict_peak_window:
  assumes "strict_peak data spacing i" and "i < length data" and "j < length data"
    and "j \<noteq> i" and "j \<le> i + spacing" and "i \<le> j + spacing"
  shows "data ! j < data ! i"
proof (cases "j < i")
  case True
  define s where "s = i - j - 1"
  have s: "s \<in> {0..<spacing}" using True assms(6) by (auto simp: s_def)
  have "nat (int i - (int s + 1)) = j" using True unfolding s_def by linarith
  moreover have "\<not> int i - (int s + 1) < 0" "\<not> int (length data) \<le> int i - (int s + 1)"
    using True assms(2) unfolding s_def by linarith+
  ultimately have "neighbour data (int i - (int s + 1)) = data ! j"
    unfolding neighbour_def by (simp only: if_False)
  then show ?thesis using assms(1) s unfolding strict_peak_def by fastforce
next
  case False
  then have lt: "i < j" using assms(4) by simp
  define s where "s = j - i - 1"
  have s: "s \<in> {0..<spacing}" using lt assms(5) by (auto simp: s_def)
  have "nat (int i + (int s + 1)) = j" using lt unfolding s_def by linarith
  moreover have "\<not> int i + (int s + 1) < 0" "\<not> int (length data) \<le> int i + (int s + 1)"
    using lt assms(3) unfolding s_def by linarith+
  ultimately have "neighbour data (int i + (int s + 1)) = data ! j"
    unfolding neighbour_def by (simp only: if_False)
  then show ?thesis using assms(1) s unfolding strict_peak_def by fastforce
qed

lemma strict_peak_interior:
  assumes "spacing \<le> i" and "i + spacing < length data"
    and "\<forall>j < length data. j \<noteq> i \<and> j \<le> i + spacing \<and> i \<le> j + spacing \<longrightarrow> data ! j < data ! i"
  shows "strict_peak data spacing i"
  unfolding strict_peak_def
proof
  fix s assume "s \<in> {0..<spacing}"
  then have s: "s < spacing" by simp
  have b: "neighbour data (int i - (int s + 1)) = data ! (i - (s + 1))"
  proof -
    have "nat (int i - (int s + 1)) = i - (s + 1)" by linarith
    moreover have "\<not> int i - (int s + 1) < 0" "\<not> int (length data) \<le> int i - (int s + 1)"
      using s assms(1,2) by linarith+
    ultimately show ?thesis unfolding neighbour_def by (simp only: if_False)
  qed
  have a: "neighbour data (int i + (int s + 1)) = data ! (i + (s + 1))"
  proof -
    have "nat (int i + (int s + 1)) = i + (s + 1)" by linarith
    moreover have "\<not> int i + (int s + 1) < 0" "\<not> int (length data) \<le> int i + (int s + 1)"
      using s assms(1,2) by linarith+
    ultimately show ?thesis unfolding neighbour_def by (simp only: if_False)
  qed
  have "data ! (i - (s + 1)) < data ! i"
    using assms s by (intro assms(3)[rule_format]) auto
  moreover have "data ! (i + (s + 1)) < data ! i"
    using assms s by (intro assms(3)[rule_format]) auto
  ultimately show "neighbour data (int i - (int s + 1)) < data ! i
      \<and> neighbour data (int i + (int s + 1)) < data ! i"
    using a b by simp
qed

lemma findpeaks_spec_member:
  "i \<in> set (findpeaks_spec data spacing limit) \<longleftrightarrow>
     i < length data \<and> strict_peak data spacing i
     \<and> (case limit of None \<Rightarrow> True | Some l \<Rightarrow> data ! i > l)"
  by (auto simp: findpeaks_spec_def)

section \<open>Lemmas about the conditioning stages\<close>

lemma length_ediff1d: "length (ediff1d ary) = length ary - 1"
  by (simp add: ediff1d_def)

lemma length_convolve:
  "convolve a v = Inr r \<Longrightarrow> a \<noteq> [] \<and> v \<noteq> [] \<and> length r = length a + length v - 1"
  by (auto simp: convolve_def split: if_splits)

lemma ones_Inr: "ones n = Inr w \<Longrightarrow> 0 \<le> n \<and> int (length w) = n"
  by (auto simp: ones_def split: if_splits)

lemma detect_peaks_Inr:
  assumes "detect_peaks butter lfilter cfg ecg_data = Inr sig"
  shows "differentiated_signal sig = ediff1d (filtered_signal sig)"
    and "squared_signal sig = map (\<lambda>d. d ^ 2) (differentiated_signal sig)"
    and "\<exists>window. ones (integration_window cfg) = Inr window
           \<and> convolve (squared_signal sig) window = Inr (integrated_signal sig)"
    and "bandpass_filter butter lfilter (map snd ecg_data) (filter_lowcut cfg)
                (filter_highcut cfg) (signal_frequency cfg) (filter_order cfg)
          = Inr (filtered_signal sig)"
  using assms by (auto simp: detect_peaks_def Let_def split: sum.splits)

section \<open>What the peak finder returns\<close>



section \<open>Short sequences\<close>




section \<open>A single global maximum\<close>

text \<open>
  A sequence with its single strict global maximum at 3 and spacing 1 also returns
  the smaller local maxima at 1 and 5; and a limit equal to the maximum value removes
  the maximum itself, since the comparison with the limit is strict.
\<close>

theorem single_maximum_counterexample:
  "findpeaks [0, 2, 0, 5, 0, 1, 0] 1 None = Inr [1, 3, 5]
   \<and> findpeaks [0, 5, 0] 1 (Some 5) = Inr []"
  by code_simp

text \<open>
  C9, as amended. For a sequence with a single strict global maximum at \<open>i\<close>, a
  spacing no greater than the distance from \<open>i\<close> to either boundary and no limit or a
  limit strictly below the maximum value, \<^verbatim>\<open>findpeaks\<close> returns an ascending list that
  contains \<open>i\<close>, and every other index in it is more than \<^verbatim>\<open>spacing\<close> positions away
  from \<open>i\<close>.
\<close>

theorem single_maximum_found:
  assumes "i < length data"
    and "\<forall>j < length data. j \<noteq> i \<longrightarrow> data ! j < data ! i"
    and "spacing \<le> i" and "i + spacing < length data"
    and "case limit of None \<Rightarrow> True | Some l \<Rightarrow> l < data ! i"
  shows "\<exists>ind. findpeaks data spacing limit = Inr ind
    \<and> sorted_wrt (<) ind
    \<and> i \<in> set ind
    \<and> (\<forall>j \<in> set ind. j \<noteq> i \<longrightarrow> j + spacing < i \<or> i + spacing < j)"
proof -
  have ne: "data \<noteq> []" using assms(1) by auto
  have r: "findpeaks data spacing limit = Inr (findpeaks_spec data spacing limit)"
    using ne by (rule findpeaks_refines)
  have p: "strict_peak data spacing i"
    using assms(3,4) by (rule strict_peak_interior) (use assms(2) in blast)
  have m: "i \<in> set (findpeaks_spec data spacing limit)"
    using assms(1,5) p by (simp add: findpeaks_spec_member)
  have o: "j + spacing < i \<or> i + spacing < j"
    if "j \<in> set (findpeaks_spec data spacing limit)" and "j \<noteq> i" for j
  proof (rule ccontr)
    assume "\<not> (j + spacing < i \<or> i + spacing < j)"
    then have w: "i \<le> j + spacing" "j \<le> i + spacing" by simp_all
    have j: "j < length data" "strict_peak data spacing j"
      using that(1) by (simp_all add: findpeaks_spec_member)
    have "data ! i < data ! j"
      using j(2) j(1) assms(1) that(2)[symmetric] w by (rule strict_peak_window)
    moreover have "data ! j < data ! i"
      using assms(2) j(1) that(2) by blast
    ultimately show False by simp
  qed
  have s: "sorted_wrt (<) (findpeaks_spec data spacing limit)"
    by (simp add: findpeaks_spec_def sorted_wrt_filter)
  from r s m o show ?thesis by blast
qed

theorem single_maximum_found_witness:
  "(3::nat) < length [0, 2, 0, 5, 0, 1, 0 :: real]
   \<and> [0, 2, 0, 5, 0, 1, 0 :: real] ! 1 < [0, 2, 0, 5, 0, 1, 0] ! 3
   \<and> [0, 2, 0, 5, 0, 1, 0 :: real] ! 5 < [0, 2, 0, 5, 0, 1, 0] ! 3
   \<and> (1::nat) \<le> 3 \<and> 3 + 1 < length [0, 2, 0, 5, 0, 1, 0 :: real]
   \<and> (4::real) < [0, 2, 0, 5, 0, 1, 0] ! 3
   \<and> (\<exists>ind. findpeaks [0, 2, 0, 5, 0, 1, 0] 1 (Some 4) = Inr ind
          \<and> sorted_wrt (<) ind \<and> 3 \<in> set ind)"
proof -
  have a: "(3::nat) < length [0, 2, 0, 5, 0, 1, 0 :: real]" by simp
  have b: "\<forall>j < length [0, 2, 0, 5, 0, 1, 0 :: real]. j \<noteq> 3 \<longrightarrow>
         [0, 2, 0, 5, 0, 1, 0 :: real] ! j < [0, 2, 0, 5, 0, 1, 0] ! 3"
  proof (intro allI impI)
    fix j :: nat assume "j < length [0, 2, 0, 5, 0, 1, 0 :: real]" and "j \<noteq> 3"
    then have "j \<in> {0, 1, 2, 4, 5, 6}" by auto
    then show "[0, 2, 0, 5, 0, 1, 0 :: real] ! j < [0, 2, 0, 5, 0, 1, 0] ! 3"
      by auto
  qed
  have c: "(1::nat) \<le> 3" by simp
  have d: "3 + 1 < length [0, 2, 0, 5, 0, 1, 0 :: real]" by simp
  have e: "case Some (4::real) of None \<Rightarrow> True | Some l \<Rightarrow> l < [0, 2, 0, 5, 0, 1, 0] ! 3"
    by simp
  have "\<exists>ind. findpeaks [0, 2, 0, 5, 0, 1, 0] 1 (Some 4) = Inr ind
          \<and> sorted_wrt (<) ind \<and> 3 \<in> set ind"
    using single_maximum_found [OF a b c d e] by blast
  then show ?thesis by simp
qed

section \<open>Lengths of the conditioned signals\<close>

text \<open>
  C4. Whenever \<^verbatim>\<open>detect_peaks\<close> returns, with any filter, configuration and input, the
  differentiated signal is one shorter than the filtered signal, the squared signal
  is as long as the differentiated one, and the integrated signal has the length of
  the squared signal plus \<^verbatim>\<open>integration_window\<close> minus 1. It returns whenever the filter
  returns at least two samples and \<^verbatim>\<open>integration_window\<close> is at least 1. (With fewer
  than two filtered samples the squared signal is empty and \<^verbatim>\<open>np.convolve\<close> raises, so
  there is no integrated signal.)
\<close>

theorem conditioning_lengths:
  "(detect_peaks butter lfilter cfg ecg_data = Inr sig \<longrightarrow>
      int (length (differentiated_signal sig)) = int (length (filtered_signal sig)) - 1
      \<and> length (squared_signal sig) = length (differentiated_signal sig)
      \<and> int (length (integrated_signal sig))
          = int (length (squared_signal sig)) + integration_window cfg - 1)
   \<and> (bandpass_filter butter lfilter (map snd ecg_data) (filter_lowcut cfg)
        (filter_highcut cfg) (signal_frequency cfg) (filter_order cfg) = Inr filtered
      \<and> 2 \<le> length filtered \<and> 1 \<le> integration_window cfg \<longrightarrow>
      (\<exists>sig. detect_peaks butter lfilter cfg ecg_data = Inr sig))"
proof -
  have a: "int (length (differentiated_signal sig)) = int (length (filtered_signal sig)) - 1
      \<and> length (squared_signal sig) = length (differentiated_signal sig)
      \<and> int (length (integrated_signal sig))
          = int (length (squared_signal sig)) + integration_window cfg - 1"
    if h: "detect_peaks butter lfilter cfg ecg_data = Inr sig"
  proof -
    obtain window where w: "ones (integration_window cfg) = Inr window"
      and c: "convolve (squared_signal sig) window = Inr (integrated_signal sig)"
      using detect_peaks_Inr(3) [OF h] by blast
    have d: "differentiated_signal sig = ediff1d (filtered_signal sig)"
      and s: "length (squared_signal sig) = length (differentiated_signal sig)"
      using detect_peaks_Inr(1,2) [OF h] by simp_all
    have ne: "squared_signal sig \<noteq> []" "window \<noteq> []"
      and li: "length (integrated_signal sig) = length (squared_signal sig) + length window - 1"
      using length_convolve [OF c] by simp_all
    have "filtered_signal sig \<noteq> []"
      using ne(1) s d by (auto simp: ediff1d_def)
    then have "int (length (differentiated_signal sig)) = int (length (filtered_signal sig)) - 1"
      using d by (cases "filtered_signal sig") (simp_all add: length_ediff1d)
    moreover have "int (length (integrated_signal sig))
          = int (length (squared_signal sig)) + integration_window cfg - 1"
      using li ne ones_Inr [OF w] by (cases window) simp_all
    ultimately show ?thesis using s by simp
  qed
  have b: "\<exists>sig. detect_peaks butter lfilter cfg ecg_data = Inr sig"
    if f: "bandpass_filter butter lfilter (map snd ecg_data) (filter_lowcut cfg)
        (filter_highcut cfg) (signal_frequency cfg) (filter_order cfg) = Inr filtered"
      and l: "2 \<le> length filtered" and w: "1 \<le> integration_window cfg"
  proof -
    let ?sq = "map (\<lambda>d. d ^ 2) (ediff1d filtered)"
    let ?w = "replicate (nat (integration_window cfg)) (1::real)"
    have o: "ones (integration_window cfg) = Inr ?w"
      using w by (simp add: ones_def)
    have sq: "?sq \<noteq> []" using l by (simp add: length_ediff1d flip: length_greater_0_conv)
    have wn: "?w \<noteq> []" using w by (simp flip: length_greater_0_conv)
    obtain integrated where c: "convolve ?sq ?w = Inr integrated" and i: "integrated \<noteq> []"
      using sq wn by (auto simp: convolve_def simp flip: length_greater_0_conv)
    obtain ind where p: "findpeaks integrated (findpeaks_spacing cfg) (Some (findpeaks_limit cfg))
        = Inr ind"
      using findpeaks_refines [OF i] by blast
    show ?thesis
      using f o c p by (simp add: detect_peaks_def Let_def)
  qed
  from a b show ?thesis by blast
qed

theorem conditioning_lengths_witness:
  "\<exists>sig. detect_peaks passthrough_butter passthrough_lfilter default_config
            [(0, 0), (1, 1), (2, 0)] = Inr sig
     \<and> filtered_signal sig = [0, 1, 0]
     \<and> length (differentiated_signal sig) = 2
     \<and> length (squared_signal sig) = 2
     \<and> length (integrated_signal sig) = 16"
proof -
  have f: "bandpass_filter passthrough_butter passthrough_lfilter (map snd [(0, 0), (1, 1), (2, 0)])
        (filter_lowcut default_config) (filter_highcut default_config)
        (signal_frequency default_config) (filter_order default_config) = Inr [0, 1, 0]"
    by (simp add: bandpass_filter_def passthrough_butter_def passthrough_lfilter_def
        default_config_def)
  have l: "2 \<le> length [0, 1, 0 :: real]" "1 \<le> integration_window default_config"
    by (simp_all add: default_config_def)
  obtain sig where s: "detect_peaks passthrough_butter passthrough_lfilter default_config
            [(0, 0), (1, 1), (2, 0)] = Inr sig"
    using conditioning_lengths [of passthrough_butter passthrough_lfilter default_config
        "[(0, 0), (1, 1), (2, 0)]" _ "[0, 1, 0]"] f l
    by blast
  have g: "filtered_signal sig = [0, 1, 0]"
    using detect_peaks_Inr(4) [OF s] f by simp
  have "int (length (differentiated_signal sig)) = int (length (filtered_signal sig)) - 1
      \<and> length (squared_signal sig) = length (differentiated_signal sig)
      \<and> int (length (integrated_signal sig))
          = int (length (squared_signal sig)) + integration_window default_config - 1"
    using conditioning_lengths [of passthrough_butter passthrough_lfilter default_config
        "[(0, 0), (1, 1), (2, 0)]" sig "[0, 1, 0]"] s
    by blast
  then have "length (differentiated_signal sig) = 2 \<and> length (squared_signal sig) = 2
      \<and> length (integrated_signal sig) = 16"
    using g by (simp add: default_config_def)
  with s g show ?thesis by blast
qed

end
